theory Spec2Isabelle
  imports Complex_Main "HOL-Library.Sublist"
begin

section \<open>Python strings\<close>

text \<open>
  A Python \<open>str\<close> is a sequence of Unicode code points, and \<open>len\<close>, slicing, \<open>in\<close> and
  \<open>startswith\<close> all count code points. The program's literals mix ASCII and Chinese text,
  so a string is modelled as the list of its code points. \<open>needle in hay\<close> is
  \<^term>\<open>sublist needle hay\<close> and \<open>s.startswith(p)\<close> is \<^term>\<open>prefix p s\<close>.
\<close>

type_synonym ustr = "nat list"

definition ascii :: "string \<Rightarrow> ustr" where
  "ascii s = map of_char s"

definition about_blank :: ustr where
  \<comment> \<open>Python literal "about:blank"\<close>
  "about_blank =
     [97, 98, 111, 117, 116, 58, 98, 108, 97, 110, 107]"

text \<open>
  \<open>str.lower()\<close>. The program only ever searches a lowered string for needles made of
  ASCII and CJK characters. The code points whose lower-case form holds such a character
  are \<open>A\<close>--\<open>Z\<close>, U+212A (KELVIN SIGN, lowered to \<open>k\<close>) and U+0130 (lowered to \<open>i\<close>
  followed by U+0307); every other cased letter is lowered to a letter outside ASCII and
  CJK, so it is left in place here and no search of the program can tell the difference.
\<close>

definition lower_cp :: "nat \<Rightarrow> ustr" where
  "lower_cp c =
     (if 65 \<le> c \<and> c \<le> 90 then [c + 32]
      else if c = 8490 then [107]
      else if c = 304 then [105, 775]
      else [c])"

definition py_lower :: "ustr \<Rightarrow> ustr" where
  "py_lower s = concat (map lower_cp s)"

text \<open>
  \<open>s.split(' ', 1)\<close>: one list element when \<open>s\<close> has no space (U+0020), otherwise the
  text before the first space and the whole rest after it.
\<close>

definition split_space1 :: "ustr \<Rightarrow> ustr list" where
  "split_space1 s =
     (if 32 \<in> set s
      then [takeWhile (\<lambda>c. c \<noteq> 32) s, tl (dropWhile (\<lambda>c. c \<noteq> 32) s)]
      else [s])"


section \<open>BrowserStateTracker (browser\_use.py, lines 32--121)\<close>

text \<open>
  One entry of \<open>state_history\<close>: the dict \<open>{"url", "title", "timestamp", "is_stable"}\<close>.
  The timestamp is the reading of \<open>time.time()\<close>, which the tracker stores and never
  computes with; every operation that reads the clock takes the reading as an argument.
\<close>

record page_state =
  url :: ustr
  title :: ustr
  timestamp :: real
  is_stable :: bool

text \<open>
  The fields of \<open>BrowserStateTracker.__init__\<close>. \<open>last_stable_url\<close> and
  \<open>error_details\<close> start as Python's \<open>None\<close>. \<open>max_history\<close> is the bound on a
  length; the only constructor call in the program uses the default 10.
\<close>

record tracker =
  url_history :: "ustr list"
  state_history :: "page_state list"
  last_stable_url :: "ustr option"
  max_history :: nat
  has_error :: bool
  error_details :: "ustr option"
  auto_recovery :: bool
  consecutive_errors :: nat

definition tracker_init :: "nat \<Rightarrow> bool \<Rightarrow> tracker" where
  "tracker_init mh ar =
     \<lparr>url_history = [], state_history = [], last_stable_url = None, max_history = mh,
      has_error = False, error_details = None, auto_recovery = ar, consecutive_errors = 0\<rparr>"

text \<open>
  \<open>record_url(url, is_stable, page_title)\<close>. The guard \<open>not url or url == "about:blank"\<close>
  returns at once. Otherwise both lists are appended to, and when the URL list has grown
  past \<open>max_history\<close> one entry is popped from the front of each (\<open>pop(0)\<close>; both lists
  are non-empty at that point, so \<open>pop\<close> cannot raise). A stable entry then moves the
  stable pointer and clears the error fields.
\<close>

definition record_url :: "ustr \<Rightarrow> bool \<Rightarrow> ustr \<Rightarrow> real \<Rightarrow> tracker \<Rightarrow> tracker" where
  "record_url u stb page_title now t =
     (if u = [] \<or> u = about_blank then t
      else
        let state_info = \<lparr>url = u, title = page_title, timestamp = now, is_stable = stb\<rparr>;
            uh = url_history t @ [u];
            sh = state_history t @ [state_info];
            over = (length uh > max_history t);
            t1 = t\<lparr>url_history := (if over then tl uh else uh),
                   state_history := (if over then tl sh else sh)\<rparr>
        in if stb
           then t1\<lparr>last_stable_url := Some u, has_error := False,
                   error_details := None, consecutive_errors := 0\<rparr>
           else t1)"

text \<open>
  \<open>mark_error(url, error_details)\<close>: sets the flag, stores the details, counts the error,
  then records the URL as an unstable entry with the default empty title.
\<close>

definition mark_error :: "ustr \<Rightarrow> ustr \<Rightarrow> real \<Rightarrow> tracker \<Rightarrow> tracker" where
  "mark_error u details now t =
     record_url u False [] now
       (t\<lparr>has_error := True, error_details := Some details,
          consecutive_errors := consecutive_errors t + 1\<rparr>)"

text \<open>
  \<open>get_recovery_url()\<close>. \<open>if self.last_stable_url\<close> is a truth test: \<open>None\<close> and the
  empty string both fall through. The scan is \<open>reversed(self.state_history[:-1])\<close>, the
  entries but the last, newest first. The two fall-backs index \<open>url_history\<close> at
  \<open>[-2]\<close> and \<open>[0]\<close> under length guards, so neither can raise.
\<close>

definition get_recovery_url :: "tracker \<Rightarrow> ustr option" where
  "get_recovery_url t =
     (if last_stable_url t \<noteq> None \<and> last_stable_url t \<noteq> Some []
      then last_stable_url t
      else
        case find is_stable (rev (butlast (state_history t))) of
          Some st \<Rightarrow> Some (url st)
        | None \<Rightarrow>
            if length (url_history t) > 1
            then Some (url_history t ! (length (url_history t) - 2))
            else if url_history t \<noteq> [] then Some (url_history t ! 0)
            else None)"

definition should_auto_recover :: "tracker \<Rightarrow> bool" where
  "should_auto_recover t =
     (if consecutive_errors t \<ge> 2 then True else has_error t \<and> auto_recovery t)"

definition clear :: "tracker \<Rightarrow> tracker" where
  "clear t =
     t\<lparr>url_history := [], state_history := [], last_stable_url := None,
       has_error := False, error_details := None, consecutive_errors := 0\<rparr>"

definition suggestion_repeated_head :: ustr where
  \<comment> \<open>"Repeated errors detected. Strongly advised: use the BACK command to return to the
      previous stable page, or use GOTO " (Chinese in the source)\<close>
  "suggestion_repeated_head =
     [26816, 27979, 21040, 36830, 32493, 22810, 27425, 38169, 35823, 12290, 24378, 28872,
      24314, 35758, 20351, 29992, 66, 65, 67, 75, 21629, 20196, 36820, 22238, 21040, 19978,
      19968, 20010, 31283, 23450, 39029, 38754, 65292, 25110, 20351, 29992, 71, 79, 84, 79,
      32]"

definition suggestion_single_head :: ustr where
  \<comment> \<open>"Error detected. Advised: use the BACK command to return to the previous stable
      page, or use GOTO " (Chinese in the source)\<close>
  "suggestion_single_head =
     [26816, 27979, 21040, 38169, 35823, 12290, 24314, 35758, 20351, 29992, 66, 65, 67, 75,
      21629, 20196, 36820, 22238, 21040, 19978, 19968, 20010, 31283, 23450, 39029, 38754,
      65292, 25110, 20351, 29992, 71, 79, 84, 79, 32]"

definition suggestion_tail :: ustr where
  \<comment> \<open>" to go straight back to the last stable state." (Chinese in the source)\<close>
  "suggestion_tail =
     [30452, 25509, 36820, 22238, 21040, 26368, 21518, 19968, 20010, 31283, 23450, 29366,
      24577, 12290]"

text \<open>
  \<open>get_suggestion()\<close>: a hint only when the error flag is up and the stable pointer is
  truthy; the wording is stronger from two consecutive errors on.
\<close>

definition get_suggestion :: "tracker \<Rightarrow> ustr" where
  "get_suggestion t =
     (case last_stable_url t of
        None \<Rightarrow> []
      | Some u \<Rightarrow>
          if has_error t \<and> u \<noteq> []
          then (if consecutive_errors t \<ge> 2
                then suggestion_repeated_head @ u @ suggestion_tail
                else suggestion_single_head @ u @ suggestion_tail)
          else [])"

text \<open>
  A run of the two recording methods, for statements about every sequence of calls.
\<close>

datatype tracker_op =
    RecordUrl ustr bool ustr real
  | MarkError ustr ustr real

fun apply_op :: "tracker \<Rightarrow> tracker_op \<Rightarrow> tracker" where
  "apply_op t (RecordUrl u stb page_title now) = record_url u stb page_title now t"
| "apply_op t (MarkError u details now) = mark_error u details now t"

fun run_ops :: "tracker \<Rightarrow> tracker_op list \<Rightarrow> tracker" where
  "run_ops t [] = t"
| "run_ops t (x # xs) = run_ops (apply_op t x) xs"

text \<open>
  What a call contributes to the history when it is accepted: nothing for an empty or
  \<open>about:blank\<close> URL, one entry otherwise (an unstable, untitled one for \<open>mark_error\<close>).
\<close>

fun accepted :: "tracker_op \<Rightarrow> page_state list" where
  "accepted (RecordUrl u stb page_title now) =
     (if u = [] \<or> u = about_blank then []
      else [\<lparr>url = u, title = page_title, timestamp = now, is_stable = stb\<rparr>])"
| "accepted (MarkError u details now) =
     (if u = [] \<or> u = about_blank then []
      else [\<lparr>url = u, title = [], timestamp = now, is_stable = False\<rparr>])"

definition last_n :: "nat \<Rightarrow> 'a list \<Rightarrow> 'a list" where
  "last_n n xs = drop (length xs - n) xs"

text \<open>
  The states the tracker of a running agent can be in: built by \<open>__init__\<close> and changed
  only through the operations above, \<open>clear\<close> and the BACK command's reset of the flag.
\<close>

inductive reachable :: "tracker \<Rightarrow> bool" where
  r_init: "reachable (tracker_init mh ar)"
| r_record: "reachable t \<Longrightarrow> reachable (record_url u stb page_title now t)"
| r_mark: "reachable t \<Longrightarrow> reachable (mark_error u details now t)"
| r_clear: "reachable t \<Longrightarrow> reachable (clear t)"
| r_reset_flag: "reachable t \<Longrightarrow> reachable (t\<lparr>has_error := False\<rparr>)"

text \<open>
  The history invariant behind the FIFO bound: the state list is the last \<open>max_history\<close>
  entries of everything accepted so far (\<open>H\<close>), and the URL list is its projection.
\<close>

definition hist_inv :: "page_state list \<Rightarrow> tracker \<Rightarrow> bool" where
  "hist_inv H t \<longleftrightarrow>
     state_history t = last_n (max_history t) H \<and> url_history t = map url (state_history t)"

text \<open>
  What every reachable tracker satisfies about its stable pointer: it is never the empty
  string, and while it is \<open>None\<close> no entry of the history is stable.
\<close>

definition track_inv :: "tracker \<Rightarrow> bool" where
  "track_inv t \<longleftrightarrow>
     last_stable_url t \<noteq> Some [] \<and>
     (last_stable_url t = None \<longrightarrow> (\<forall>e \<in> set (state_history t). \<not> is_stable e))"


section \<open>TestFramework (modules/test\_framework.py)\<close>

text \<open>The phase constants of the class.\<close>

definition PHASE_RECON :: nat where "PHASE_RECON = 1"
definition PHASE_BASELINE :: nat where "PHASE_BASELINE = 2"
definition PHASE_PLANNING :: nat where "PHASE_PLANNING = 3"
definition PHASE_EXPLOIT :: nat where "PHASE_EXPLOIT = 4"

record mechanism =
  mech_type :: ustr
  mech_description :: ustr
  mech_timestamp :: real

record input_point_rec =
  ip_selector :: ustr
  ip_context :: ustr
  ip_timestamp :: real

record discovery =
  disc_description :: ustr
  disc_phase :: nat
  disc_timestamp :: real

text \<open>
  The fields of \<open>TestFramework.__init__\<close> that the state update reads or writes.
  \<open>last_guidance_time\<close>, \<open>guidance_interval\<close> and \<open>phase_intro_sent\<close> only steer which
  guidance text \<open>process_command\<close> returns after the state update; no transition reads
  them, and they are not part of this record.
\<close>

record framework =
  current_phase :: nat
  phase_progress :: nat
  security_mechanisms :: "mechanism list"
  input_points :: "input_point_rec list"
  discoveries :: "discovery list"
  command_counter :: nat

definition framework_init :: framework where
  "framework_init =
     \<lparr>current_phase = PHASE_RECON, phase_progress = 0, security_mechanisms = [],
      input_points = [], discoveries = [], command_counter = 0\<rparr>"

definition kw_captcha_zh :: ustr where
  \<comment> \<open>"yanzhengma" (verification code, i.e. captcha; Chinese in the source)\<close>
  "kw_captcha_zh =
     [39564, 35777, 30721]"

definition kw_token_zh :: ustr where
  \<comment> \<open>"lingpai" (token; Chinese in the source)\<close>
  "kw_token_zh =
     [20196, 29260]"

definition kw_login_zh :: ustr where
  \<comment> \<open>"denglu" (log in; Chinese in the source)\<close>
  "kw_login_zh =
     [30331, 24405]"

definition kw_injection_zh :: ustr where
  \<comment> \<open>"zhuru" (injection; Chinese in the source)\<close>
  "kw_injection_zh =
     [27880, 20837]"

definition kw_vuln_zh :: ustr where
  \<comment> \<open>"loudong" (vulnerability; Chinese in the source)\<close>
  "kw_vuln_zh =
     [28431, 27934]"

definition term_sql_injection :: ustr where
  \<comment> \<open>"sql" followed by "zhuru" (SQL injection)\<close>
  "term_sql_injection =
     [115, 113, 108, 27880, 20837]"

definition term_cmd_injection :: ustr where
  \<comment> \<open>"mingling zhuru" (command injection; Chinese in the source)\<close>
  "term_cmd_injection =
     [21629, 20196, 27880, 20837]"

definition term_file_upload :: ustr where
  \<comment> \<open>"wenjian shangchuan" (file upload; Chinese in the source)\<close>
  "term_file_upload =
     [25991, 20214, 19978, 20256]"

definition desc_captcha :: ustr where
  \<comment> \<open>"captcha protection" (Chinese in the source)\<close>
  "desc_captcha =
     [39564, 35777, 30721, 20445, 25252]"

definition desc_csrf :: ustr where
  \<comment> \<open>"CSRF token protection" (Chinese in the source)\<close>
  "desc_csrf =
     [67, 83, 82, 70, 20196, 29260, 20445, 25252]"

definition disc_login :: ustr where
  \<comment> \<open>"tried the normal login flow" (Chinese in the source)\<close>
  "disc_login =
     [23581, 35797, 27491, 24120, 30331, 24405, 27969, 31243]"

definition disc_captcha :: ustr where
  \<comment> \<open>"handled the captcha correctly" (Chinese in the source)\<close>
  "disc_captcha =
     [27491, 30830, 22788, 29702, 39564, 35777, 30721]"

definition disc_plan_head :: ustr where
  \<comment> \<open>"plan to test " (Chinese in the source)\<close>
  "disc_plan_head =
     [35745, 21010, 27979, 35797]"

definition disc_sql :: ustr where
  \<comment> \<open>"ran an SQL injection test" (Chinese in the source)\<close>
  "disc_sql =
     [25191, 34892, 83, 81, 76, 27880, 20837, 27979, 35797]"

definition disc_xss :: ustr where
  \<comment> \<open>"ran an XSS injection test" (Chinese in the source)\<close>
  "disc_xss =
     [25191, 34892, 88, 83, 83, 27880, 20837, 27979, 35797]"


text \<open>\<open>_add_security_mechanism\<close>: nothing happens when the type is already listed.\<close>

definition add_security_mechanism :: "ustr \<Rightarrow> ustr \<Rightarrow> real \<Rightarrow> framework \<Rightarrow> framework" where
  "add_security_mechanism ty description now s =
     (if ty \<in> set (map mech_type (security_mechanisms s)) then s
      else s\<lparr>security_mechanisms := security_mechanisms s @
             [\<lparr>mech_type = ty, mech_description = description, mech_timestamp = now\<rparr>]\<rparr>)"

text \<open>\<open>_add_input_point\<close>: nothing happens when the selector is already listed.\<close>

definition add_input_point :: "ustr \<Rightarrow> ustr \<Rightarrow> real \<Rightarrow> framework \<Rightarrow> framework" where
  "add_input_point selector ctxt now s =
     (if selector \<in> set (map ip_selector (input_points s)) then s
      else s\<lparr>input_points := input_points s @
             [\<lparr>ip_selector = selector, ip_context = ctxt, ip_timestamp = now\<rparr>]\<rparr>)"

definition add_discovery :: "ustr \<Rightarrow> real \<Rightarrow> framework \<Rightarrow> framework" where
  "add_discovery description now s =
     s\<lparr>discoveries := discoveries s @
         [\<lparr>disc_description = description, disc_phase = current_phase s,
           disc_timestamp = now\<rparr>]\<rparr>"

definition add_progress :: "nat \<Rightarrow> framework \<Rightarrow> framework" where
  "add_progress n s = s\<lparr>phase_progress := phase_progress s + n\<rparr>"

text \<open>
  \<open>_check_phase_transition\<close>: one \<open>if\<close>/\<open>elif\<close> chain, so at most one transition per
  call. In Recon the progress test is the outer \<open>if\<close> and the evidence test the inner
  one; when the inner test fails, no \<open>elif\<close> branch is tried.
\<close>

definition check_phase_transition :: "framework \<Rightarrow> framework" where
  "check_phase_transition s =
     (if current_phase s = PHASE_RECON \<and> phase_progress s \<ge> 80
      then (if length (security_mechanisms s) \<ge> 1 \<and> length (input_points s) \<ge> 2
            then s\<lparr>current_phase := PHASE_BASELINE, phase_progress := 0\<rparr>
            else s)
      else if current_phase s = PHASE_BASELINE \<and> phase_progress s \<ge> 60
      then s\<lparr>current_phase := PHASE_PLANNING, phase_progress := 0\<rparr>
      else if current_phase s = PHASE_PLANNING \<and> phase_progress s \<ge> 70
      then s\<lparr>current_phase := PHASE_EXPLOIT, phase_progress := 0\<rparr>
      else s)"

text \<open>
  The Recon branch of \<open>_update_state_from_command\<close>: five \<open>if\<close> statements in a row,
  each working on the state the one before left. \<open>cmd_content.split(' ', 1)\<close> always has
  a first element, so the guard \<open>len(parts) > 0\<close> of the source is always true.
\<close>

definition update_recon :: "real \<Rightarrow> ustr \<Rightarrow> ustr \<Rightarrow> framework \<Rightarrow> framework" where
  "update_recon now cmd_type cmd_content s =
     (let s1 = (if cmd_type = ascii ''THINK'' \<and>
                   (sublist kw_captcha_zh cmd_content \<or>
                    sublist (ascii ''captcha'') (py_lower cmd_content))
                then add_progress 10
                       (add_security_mechanism (ascii ''captcha'') desc_captcha now s)
                else s);
          s2 = (if cmd_type = ascii ''THINK'' \<and>
                   (sublist (ascii ''csrf'') (py_lower cmd_content) \<or>
                    sublist kw_token_zh cmd_content \<or>
                    sublist (ascii ''token'') (py_lower cmd_content))
                then add_progress 10
                       (add_security_mechanism (ascii ''csrf'') desc_csrf now s1)
                else s1);
          s3 = (if cmd_type = ascii ''TYPE''
                then (let parts = split_space1 cmd_content
                      in if length parts > 0
                         then add_progress 5 (add_input_point (hd parts) cmd_content now s2)
                         else s2)
                else s2);
          s4 = (if cmd_type = ascii ''GOTO'' \<or> cmd_type = ascii ''CLICK''
                then add_progress 3 s3 else s3);
          s5 = (if cmd_type = ascii ''SCREENSHOT'' then add_progress 2 s4 else s4)
      in s5)"

text \<open>The Baseline branch; \<open>len(cmd_content.split(' ')) > 1\<close> holds when there is a space.\<close>

definition update_baseline :: "real \<Rightarrow> ustr \<Rightarrow> ustr \<Rightarrow> framework \<Rightarrow> framework" where
  "update_baseline now cmd_type cmd_content s =
     (let s1 = (if cmd_type = ascii ''TYPE'' \<and> 32 \<in> set cmd_content
                then add_progress 5 s else s);
          s2 = (if cmd_type = ascii ''CLICK'' \<and> sublist kw_login_zh cmd_content
                then add_discovery disc_login now (add_progress 10 s1) else s1);
          s3 = (if cmd_type = ascii ''TYPE'' \<and> sublist kw_captcha_zh cmd_content
                then add_discovery disc_captcha now (add_progress 8 s2) else s2)
      in s3)"

text \<open>The Planning branch: one discovery per listed term found in the lowered text.\<close>

fun add_planned :: "real \<Rightarrow> ustr \<Rightarrow> ustr list \<Rightarrow> framework \<Rightarrow> framework" where
  "add_planned now lowered [] s = s"
| "add_planned now lowered (kw # kws) s =
     add_planned now lowered kws
       (if sublist kw lowered
        then add_discovery (disc_plan_head @ kw @ kw_vuln_zh) now s else s)"

definition update_planning :: "real \<Rightarrow> ustr \<Rightarrow> ustr \<Rightarrow> framework \<Rightarrow> framework" where
  "update_planning now cmd_type cmd_content s =
     (if cmd_type = ascii ''THINK'' \<and>
         list_ex (\<lambda>kw. sublist kw (py_lower cmd_content))
           [ascii ''sql'', kw_injection_zh, ascii ''xss'', ascii ''csrf'', kw_vuln_zh]
      then add_planned now (py_lower cmd_content)
             [term_sql_injection, ascii ''xss'', ascii ''csrf'', term_cmd_injection,
              term_file_upload]
             (add_progress 10 s)
      else s)"

text \<open>
  The Exploit branch. The terms of the first test are \<open>'\<close>, \<open>"\<close>, \<open>--\<close>, \<open>UNION\<close> and
  \<open>SELECT\<close>, searched in the text as typed (no lowering).
\<close>

definition update_exploit :: "real \<Rightarrow> ustr \<Rightarrow> ustr \<Rightarrow> framework \<Rightarrow> framework" where
  "update_exploit now cmd_type cmd_content s =
     (let s1 = (if cmd_type = ascii ''TYPE'' \<and>
                   list_ex (\<lambda>kw. sublist kw cmd_content)
                     [[39], [34], ascii ''--'', ascii ''UNION'', ascii ''SELECT'']
                then add_discovery disc_sql now (add_progress 5 s) else s);
          s2 = (if cmd_type = ascii ''TYPE'' \<and>
                   list_ex (\<lambda>kw. sublist kw cmd_content)
                     [ascii ''<script>'', ascii ''alert'', ascii ''onerror'',
                      ascii ''javascript:'']
                then add_discovery disc_xss now (add_progress 5 s1) else s1)
      in s2)"

text \<open>
  \<open>_update_state_from_command\<close>: the branch of the current phase, then the cap
  \<open>min(100, progress)\<close>, then the transition check. The clock readings taken while one
  command is processed are one argument \<open>now\<close>.
\<close>

definition update_state_from_command :: "real \<Rightarrow> ustr \<Rightarrow> ustr \<Rightarrow> framework \<Rightarrow> framework" where
  "update_state_from_command now cmd_type cmd_content s =
     (let s1 = (if current_phase s = PHASE_RECON then update_recon now cmd_type cmd_content s
                else if current_phase s = PHASE_BASELINE
                then update_baseline now cmd_type cmd_content s
                else if current_phase s = PHASE_PLANNING
                then update_planning now cmd_type cmd_content s
                else if current_phase s = PHASE_EXPLOIT
                then update_exploit now cmd_type cmd_content s
                else s);
          s2 = s1\<lparr>phase_progress := min 100 (phase_progress s1)\<rparr>
      in check_phase_transition s2)"

text \<open>
  The state update of \<open>process_command\<close>: an empty command returns at once; otherwise the
  counter goes up, the command is split at its first space into verb and content, and
  the state is updated. (The method then chooses the guidance text it returns, which
  changes none of the fields modelled here.)
\<close>

definition process_command :: "real \<Rightarrow> ustr \<Rightarrow> framework \<Rightarrow> framework" where
  "process_command now command s =
     (if command = [] then s
      else
        let cmd_parts = split_space1 command;
            cmd_type = (if cmd_parts \<noteq> [] then hd cmd_parts else []);
            cmd_content = (if length cmd_parts > 1 then cmd_parts ! 1 else [])
        in update_state_from_command now cmd_type cmd_content
             (s\<lparr>command_counter := command_counter s + 1\<rparr>))"

fun process_commands :: "framework \<Rightarrow> (real \<times> ustr) list \<Rightarrow> framework" where
  "process_commands s [] = s"
| "process_commands s ((now, c) # cs) = process_commands (process_command now c s) cs"

text \<open>
  What holds of the framework after any commands: once Recon has been left, at least one
  security mechanism and at least two input points are on record.
\<close>

definition left_recon_inv :: "framework \<Rightarrow> bool" where
  "left_recon_inv s \<longleftrightarrow>
     (current_phase s = PHASE_RECON \<or>
      (length (security_mechanisms s) \<ge> 1 \<and> length (input_points s) \<ge> 2))"


section \<open>Properties of the tracker\<close>

lemma record_url_ignored:
  "u = [] \<or> u = about_blank \<Longrightarrow> record_url u stb page_title now t = t"
  by (simp add: record_url_def)

text \<open>
  C10. \<open>mark_error\<close> on an empty or \<open>about:blank\<close> URL raises the error flag and adds
  exactly one to the consecutive-error count, while both history lists and the stable
  pointer stay as they were: nothing is appended.
\<close>

theorem mark_error_blank_counts_only:
  assumes "u = [] \<or> u = about_blank"
  shows "has_error (mark_error u details now t) = True
       \<and> consecutive_errors (mark_error u details now t) = consecutive_errors t + 1
       \<and> url_history (mark_error u details now t) = url_history t
       \<and> state_history (mark_error u details now t) = state_history t
       \<and> last_stable_url (mark_error u details now t) = last_stable_url t"
  using assms by (simp add: mark_error_def record_url_ignored)

theorem mark_error_blank_counts_only_witness:
  "has_error (mark_error about_blank (ascii ''boom'') 7 (record_url (ascii ''http://a/'') True (ascii ''A'') 1 (tracker_init 10 True)))
   \<and> consecutive_errors (mark_error about_blank (ascii ''boom'') 7 (record_url (ascii ''http://a/'') True (ascii ''A'') 1 (tracker_init 10 True))) = 1
   \<and> url_history (mark_error about_blank (ascii ''boom'') 7 (record_url (ascii ''http://a/'') True (ascii ''A'') 1 (tracker_init 10 True))) = [ascii ''http://a/'']
   \<and> last_stable_url (mark_error about_blank (ascii ''boom'') 7 (record_url (ascii ''http://a/'') True (ascii ''A'') 1 (tracker_init 10 True))) = Some (ascii ''http://a/'')"
  using mark_error_blank_counts_only[of about_blank "ascii ''boom''" 7 "record_url (ascii ''http://a/'') True (ascii ''A'') 1 (tracker_init 10 True)"]
  by (simp add: record_url_def tracker_init_def Let_def ascii_def about_blank_def)

subsection \<open>The history bound\<close>


lemma last_n_snoc:
  "last_n n (xs @ [x]) =
     (if length (last_n n xs @ [x]) > n then tl (last_n n xs @ [x]) else last_n n xs @ [x])"
proof (cases "length xs < n")
  case True
  then show ?thesis by (simp add: last_n_def)
next
  case False
  then have le: "n \<le> length xs" by simp
  then have len: "length (last_n n xs) = n" by (simp add: last_n_def)
  show ?thesis
  proof (cases n)
    case 0
    then show ?thesis by (simp add: last_n_def)
  next
    case (Suc m)
    with le have "Suc (length xs) - n = Suc (length xs - n)" by simp
    then have "last_n n (xs @ [x]) = drop (Suc (length xs - n)) xs @ [x]"
      using le Suc by (simp add: last_n_def)
    moreover have "tl (last_n n xs @ [x]) = drop (Suc (length xs - n)) xs @ [x]"
    proof -
      from le Suc have "drop (length xs - n) xs \<noteq> []" by simp
      then have "tl (drop (length xs - n) xs @ [x]) = tl (drop (length xs - n) xs) @ [x]"
        by simp
      also have "tl (drop (length xs - n) xs) = drop (Suc (length xs - n)) xs"
        by (simp add: drop_Suc tl_drop)
      finally show ?thesis by (simp add: last_n_def)
    qed
    ultimately show ?thesis using len by simp
  qed
qed

lemma record_url_hist:
  assumes "hist_inv H t"
  shows "hist_inv (H @ accepted (RecordUrl u stb ti now)) (record_url u stb ti now t)"
  using assms
  by (auto simp: hist_inv_def record_url_def Let_def last_n_snoc map_tl)

lemma record_url_max: "max_history (record_url u stb ti now t) = max_history t"
  by (simp add: record_url_def Let_def)

lemma mark_error_hist:
  assumes "hist_inv H t"
  shows "hist_inv (H @ accepted (MarkError u d now)) (mark_error u d now t)"
proof -
  let ?t = "t\<lparr>has_error := True, error_details := Some d, consecutive_errors := consecutive_errors t + 1\<rparr>"
  have "hist_inv H ?t" using assms by (simp add: hist_inv_def)
  from record_url_hist[OF this, of u False "[]" now] show ?thesis
    by (simp add: mark_error_def)
qed

lemma apply_op_hist: "hist_inv H t \<Longrightarrow> hist_inv (H @ accepted x) (apply_op t x)"
  by (cases x) (simp_all only: apply_op.simps record_url_hist mark_error_hist)

lemma run_ops_hist: "hist_inv H t \<Longrightarrow> hist_inv (H @ concat (map accepted xs)) (run_ops t xs)"
proof (induction xs arbitrary: H t)
  case Nil then show ?case by simp
next
  case (Cons x xs)
  from apply_op_hist[OF Cons.prems] have "hist_inv (H @ accepted x) (apply_op t x)" .
  from Cons.IH[OF this] show ?case by simp
qed

lemma apply_op_max: "max_history (apply_op t x) = max_history t"
  by (cases x) (simp_all add: record_url_max mark_error_def)

lemma run_ops_max: "max_history (run_ops t xs) = max_history t"
  by (induction xs arbitrary: t) (simp_all add: apply_op_max)

lemma accepted_urls: "e \<in> set (accepted x) \<Longrightarrow> url e \<noteq> [] \<and> url e \<noteq> about_blank"
  by (cases x) (auto split: if_splits)

lemma set_last_n: "set (last_n n xs) \<subseteq> set xs"
  by (simp add: last_n_def set_drop_subset)

text \<open>
  C7. After any sequence of \<open>record_url\<close> and \<open>mark_error\<close> calls on a fresh tracker,
  neither history list is longer than \<open>max_history\<close>; the state list is exactly the last
  \<open>max_history\<close> accepted entries, in call order (the oldest are evicted first), and the
  URL list is their URLs; no retained entry has an empty URL or \<open>about:blank\<close>.
\<close>

theorem history_bound_fifo:
  fixes mh ar ops
  defines "t \<equiv> run_ops (tracker_init mh ar) ops"
  shows "length (state_history t) \<le> mh \<and> length (url_history t) \<le> mh
       \<and> state_history t = last_n mh (concat (map accepted ops))
       \<and> url_history t = map url (last_n mh (concat (map accepted ops)))
       \<and> (\<forall>e \<in> set (state_history t). url e \<noteq> [] \<and> url e \<noteq> about_blank)
       \<and> (\<forall>u \<in> set (url_history t). u \<noteq> [] \<and> u \<noteq> about_blank)"
proof -
  have "hist_inv [] (tracker_init mh ar)"
    by (simp add: hist_inv_def tracker_init_def last_n_def)
  from run_ops_hist[OF this, of ops]
  have inv: "hist_inv (concat (map accepted ops)) t" by (simp add: t_def)
  have mh: "max_history t = mh" by (simp add: t_def run_ops_max tracker_init_def)
  from inv mh have sh: "state_history t = last_n mh (concat (map accepted ops))"
    and uh: "url_history t = map url (state_history t)" by (simp_all add: hist_inv_def)
  have len: "length (state_history t) \<le> mh" by (simp add: sh last_n_def)
  have ok: "\<forall>e \<in> set (state_history t). url e \<noteq> [] \<and> url e \<noteq> about_blank"
  proof
    fix e assume "e \<in> set (state_history t)"
    then have "e \<in> set (concat (map accepted ops))" using set_last_n sh by fastforce
    then obtain x where "e \<in> set (accepted x)" by auto
    then show "url e \<noteq> [] \<and> url e \<noteq> about_blank" by (rule accepted_urls)
  qed
  from sh uh len ok show ?thesis by auto
qed

theorem history_bound_fifo_witness:
  "url_history (run_ops (tracker_init 2 True)
     [RecordUrl (ascii ''http://a/'') True (ascii ''A'') 1,
      MarkError about_blank (ascii ''e'') 2,
      RecordUrl (ascii ''http://b/'') True (ascii ''B'') 3,
      MarkError (ascii ''http://c/'') (ascii ''e'') 4])
     = [ascii ''http://b/'', ascii ''http://c/'']
   \<and> length (state_history (run_ops (tracker_init 2 True)
     [RecordUrl (ascii ''http://a/'') True (ascii ''A'') 1,
      MarkError about_blank (ascii ''e'') 2,
      RecordUrl (ascii ''http://b/'') True (ascii ''B'') 3,
      MarkError (ascii ''http://c/'') (ascii ''e'') 4])) = 2"
  using history_bound_fifo [of 2 True
     "[RecordUrl (ascii ''http://a/'') True (ascii ''A'') 1,
      MarkError about_blank (ascii ''e'') 2,
      RecordUrl (ascii ''http://b/'') True (ascii ''B'') 3,
      MarkError (ascii ''http://c/'') (ascii ''e'') 4]"]
  by (simp add: last_n_def ascii_def about_blank_def)

subsection \<open>The recovery target\<close>


lemma set_tl_subset: "e \<in> set (tl xs) \<Longrightarrow> e \<in> set xs"
  by (cases xs) auto

lemma record_url_track_inv:
  assumes "track_inv t"
  shows "track_inv (record_url u stb ti now t)"
proof (cases "u = [] \<or> u = about_blank")
  case True
  with assms show ?thesis by (simp add: record_url_def)
next
  case False
  show ?thesis
  proof (cases stb)
    case True
    with False show ?thesis by (simp add: track_inv_def record_url_def Let_def)
  next
    case unstable: False
    let ?sh = "state_history t @ [\<lparr>url = u, title = ti, timestamp = now, is_stable = False\<rparr>]"
    have sub: "set (state_history (record_url u stb ti now t)) \<subseteq> set ?sh"
      using False unstable by (auto simp: record_url_def Let_def dest: set_tl_subset)
    have ls: "last_stable_url (record_url u stb ti now t) = last_stable_url t"
      using False unstable by (simp add: record_url_def Let_def)
    from assms have "last_stable_url t = None \<longrightarrow> (\<forall>e \<in> set ?sh. \<not> is_stable e)"
      by (auto simp: track_inv_def)
    with sub ls assms show ?thesis by (auto simp: track_inv_def)
  qed
qed

lemma reachable_track_inv: "reachable t \<Longrightarrow> track_inv t"
proof (induction rule: reachable.induct)
  case (r_init mh ar)
  show ?case by (simp add: track_inv_def tracker_init_def)
next
  case (r_record t u stb page_title now)
  then show ?case by (simp add: record_url_track_inv)
next
  case (r_mark t u details now)
  then have "track_inv (t\<lparr>has_error := True, error_details := Some details,
          consecutive_errors := consecutive_errors t + 1\<rparr>)" by (simp add: track_inv_def)
  then show ?case unfolding mark_error_def by (rule record_url_track_inv)
next
  case (r_clear t)
  show ?case by (simp add: track_inv_def clear_def)
next
  case (r_reset_flag t)
  then show ?case by (simp add: track_inv_def)
qed

lemma find_none_butlast:
  "\<forall>e \<in> set xs. \<not> P e \<Longrightarrow> find P (rev (butlast xs)) = None"
  by (auto simp: find_None_iff dest: in_set_butlastD)

text \<open>
  C8. In every reachable tracker state \<open>get_recovery_url\<close> returns the stable pointer
  when it is set. When it is \<open>None\<close>, the scan of the history (newest first, last entry
  left out) finds no stable entry, and the result is the second-to-last URL of a history
  of two or more, the only URL of a history of one, and \<open>None\<close> for an empty history.
\<close>

theorem recovery_url_chain:
  assumes "reachable t"
  shows "get_recovery_url t =
           (case last_stable_url t of
              Some u \<Rightarrow> Some u
            | None \<Rightarrow>
                if length (url_history t) \<ge> 2
                then Some (url_history t ! (length (url_history t) - 2))
                else if length (url_history t) = 1 then Some (url_history t ! 0)
                else None)
       \<and> (last_stable_url t = None \<longrightarrow>
            find is_stable (rev (butlast (state_history t))) = None)"
proof -
  from assms have inv: "track_inv t" by (rule reachable_track_inv)
  show ?thesis
  proof (cases "last_stable_url t")
    case None
    with inv have "find is_stable (rev (butlast (state_history t))) = None"
      by (simp add: track_inv_def find_none_butlast)
    with None show ?thesis
      by (cases "url_history t") (auto simp: get_recovery_url_def Suc_le_eq)
  next
    case (Some u)
    with inv have "u \<noteq> []" by (auto simp: track_inv_def)
    with Some show ?thesis by (simp add: get_recovery_url_def)
  qed
qed

theorem recovery_url_chain_witness:
  "reachable (mark_error (ascii ''http://b/'') (ascii ''e2'') 2
               (mark_error (ascii ''http://a/'') (ascii ''e1'') 1 (tracker_init 10 True)))
   \<and> get_recovery_url (mark_error (ascii ''http://b/'') (ascii ''e2'') 2
               (mark_error (ascii ''http://a/'') (ascii ''e1'') 1 (tracker_init 10 True)))
       = Some (ascii ''http://a/'')"
proof -
  let ?t = "mark_error (ascii ''http://b/'') (ascii ''e2'') 2
               (mark_error (ascii ''http://a/'') (ascii ''e1'') 1 (tracker_init 10 True))"
  have r: "reachable ?t" by (intro reachable.intros)
  have "last_stable_url ?t = None" and "url_history ?t = [ascii ''http://a/'', ascii ''http://b/'']"
    by (simp_all add: mark_error_def record_url_def tracker_init_def Let_def ascii_def about_blank_def)
  with recovery_url_chain[OF r] r show ?thesis by simp
qed


end
